theory Spec2Isabelle
  imports Complex_Main "HOL-Library.Monad_Syntax"
begin

section \<open>Python values used by the break reminder\<close>

subsection \<open>The builtin \<open>int(str)\<close>\<close>

text \<open>
  The timer re-reads its numeric settings from Tk \<open>StringVar\<close>s with \<open>int(var.get())\<close>.
  \<open>py_int\<close> is that builtin of Python 3.11 on strings of code points below 256, a
  \<open>char\<close> being one code point. \<open>None\<close> is the \<open>ValueError\<close> of the builtin.

  The builtin skips blanks at both ends, takes one optional sign, and then wants decimal
  digits up to the end, where a single underscore may stand between two digits. The
  blanks are space, tab, line feed, vertical tab, form feed and carriage return, and of
  the code points from 128 on those that are Unicode white space, U+0085 and U+00A0
  (the builtin turns them into a space before it parses). The separators 0x1C to 0x1F are
  not blanks here, though \<open>str.strip\<close> removes them. Below 256 only \<open>0\<close> to \<open>9\<close> are
  decimal digits. A number written with more than \<open>int_max_str_digits\<close> digits, leading
  zeros counted and underscores not, is refused.
\<close>

definition is_py_space :: "char \<Rightarrow> bool" where
  "is_py_space c = (c \<in> set [CHR '' '', CHR 0x09, CHR 0x0A, CHR 0x0B, CHR 0x0C, CHR 0x0D,
                               CHR 0x85, CHR 0xA0])"

text \<open>The default of \<open>sys.get_int_max_str_digits()\<close>.\<close>

definition int_max_str_digits :: nat where
  "int_max_str_digits = 4300"

definition is_py_digit :: "char \<Rightarrow> bool" where
  "is_py_digit c = (c \<in> set ''0123456789'')"

definition py_digit :: "char \<Rightarrow> int" where
  "py_digit c = int (of_char c) - 48"

definition py_strip :: "string \<Rightarrow> string" where
  "py_strip s = rev (dropWhile is_py_space (rev (dropWhile is_py_space s)))"

fun py_digits :: "int \<Rightarrow> string \<Rightarrow> int option" where
  "py_digits acc [] = Some acc"
| "py_digits acc (c # cs) =
     (if is_py_digit c then py_digits (10 * acc + py_digit c) cs
      else if c = CHR ''_'' \<and> cs \<noteq> [] \<and> is_py_digit (hd cs) then py_digits acc cs
      else None)"

definition py_unsigned :: "string \<Rightarrow> int option" where
  "py_unsigned body =
     (case body of
        [] \<Rightarrow> None
      | c # cs \<Rightarrow>
          if \<not> is_py_digit c then None
          else if length (filter is_py_digit body) > int_max_str_digits then None
          else py_digits 0 body)"

definition py_int :: "string \<Rightarrow> int option" where
  "py_int s =
     (case py_strip s of
        [] \<Rightarrow> None
      | c # cs \<Rightarrow>
          if c = CHR ''-'' then map_option uminus (py_unsigned cs)
          else if c = CHR ''+'' then py_unsigned cs
          else py_unsigned (c # cs))"

text \<open>
  The idiom \<open>int(var.get()) if var.get() else current\<close> inside
  \<open>try: ... except (ValueError, AttributeError): pass\<close>: an empty field and a field that
  does not parse both keep the current value.
\<close>

definition reread :: "string \<Rightarrow> int \<Rightarrow> int" where
  "reread v current =
     (if v = [] then current
      else case py_int v of Some n \<Rightarrow> n | None \<Rightarrow> current)"

subsection \<open>The builtin \<open>str(int)\<close>\<close>

function nat_digits :: "nat \<Rightarrow> string" where
  "nat_digits n =
     (if n < 10 then [''0123456789'' ! n]
      else nat_digits (n div 10) @ [''0123456789'' ! (n mod 10)])"
  by pat_completeness auto
termination
  by (relation "measure id") auto

declare nat_digits.simps [simp del]

definition py_decimal :: "int \<Rightarrow> string" where
  "py_decimal i = (if i < 0 then CHR ''-'' # nat_digits (nat (- i)) else nat_digits (nat i))"

text \<open>
  \<open>str(i)\<close>: the decimal numeral, or \<open>None\<close> for the \<open>ValueError\<close> Python 3.11 raises when
  the numeral has more than \<open>int_max_str_digits\<close> digits.
\<close>

definition py_str :: "int \<Rightarrow> string option" where
  "py_str i =
     (if length (nat_digits (nat \<bar>i\<bar>)) > int_max_str_digits then None
      else Some (py_decimal i))"

subsection \<open>JSON values and the configuration file\<close>

text \<open>
  What \<open>json.load\<close> returns. An object is the list of its items, looked up from the front.
  A float is kept as its literal; the settings never compute with one.
\<close>

datatype json =
    JNull
  | JBool bool
  | JInt int
  | JFloat string
  | JStr string
  | JList "json list"
  | JObj "(string \<times> json) list"

text \<open>
  The configuration file as \<open>load_config\<close> meets it: absent (\<open>os.path.exists\<close> is false),
  present but \<open>open\<close> raises, present but \<open>json.load\<close> raises (not JSON, or not decodable
  text), or present with the value \<open>json.load\<close> returns. \<open>json.dump\<close> followed by
  \<open>json.load\<close> returns the value dumped when it is built from integers, booleans, strings
  and dictionaries with string keys, so a written file is \<open>Parsed\<close> of the value written.
\<close>

datatype config_file = Missing | Open_fails | Undecodable | Parsed json

datatype py_exception = OSError | ValueError | AttributeError

section \<open>ActivityMonitor\<close>

text \<open>
  The monitor object of \<open>complete_integrated_app.py\<close>. Time stamps are the values of
  \<open>time.time()\<close>, taken here as rationals. \<open>callback\<close> tells whether a callback was given
  to the constructor; a call of it is returned as the status string it is called with.
\<close>

record activity_monitor =
  callback :: bool
  timeout :: int
  last_activity :: rat
  is_active :: bool
  running :: bool

definition on_activity :: "rat \<Rightarrow> activity_monitor \<Rightarrow> activity_monitor \<times> string option" where
  "on_activity current_time m =
     (let was_inactive = \<not> is_active m;
          m' = m\<lparr>last_activity := current_time, is_active := True\<rparr>
      in (m', if was_inactive \<and> callback m then Some ''resumed'' else None))"

text \<open>One pass through the body of the \<open>while self.running\<close> loop of \<open>monitor_activity\<close>.\<close>

definition monitor_activity :: "rat \<Rightarrow> activity_monitor \<Rightarrow> activity_monitor \<times> string option" where
  "monitor_activity current_time m =
     (let time_since_activity = current_time - last_activity m
      in if is_active m \<and> time_since_activity > of_int (timeout m)
         then (m\<lparr>is_active := False\<rparr>, if callback m then Some ''paused'' else None)
         else (m, None))"

definition start_monitoring :: "bool \<Rightarrow> rat \<Rightarrow> activity_monitor \<Rightarrow> activity_monitor" where
  "start_monitoring available now m =
     (if \<not> available then m
      else m\<lparr>running := True, last_activity := now, is_active := True\<rparr>)"

definition stop_monitoring :: "activity_monitor \<Rightarrow> activity_monitor" where
  "stop_monitoring m = m\<lparr>running := False\<rparr>"

section \<open>The timer state shared by both variants\<close>

text \<open>
  \<open>complete_integrated_app.py\<close> and \<open>standalone-break-reminder.py\<close> each keep the whole
  state as attributes of one \<open>BreakReminderApp\<close> object. \<open>timer_core\<close> holds the attributes
  the two classes have in common: the settings, the timer state and the Tk variables of
  the settings form (\<open>StringVar\<close> as \<open>string\<close>, \<open>BooleanVar\<close> as \<open>bool\<close>). Each variant
  extends it below. Python's \<open>int\<close> is unbounded, hence \<open>int\<close>.

  \<open>break_window\<close> is \<open>None\<close> when no break window is open, and otherwise holds the two
  arguments \<open>show_break_window\<close> built the window from. Labels, the notification and the
  sound are not part of the state. \<open>start_timer\<close> starts a thread that runs \<open>run_timer\<close>;
  here it sets \<open>is_running\<close>, and the iterations of \<open>run_timer\<close> are steps of their own.
\<close>

datatype break_type = Short | Long

record timer_core =
  work_minutes :: int
  break_minutes :: int
  long_break_minutes :: int
  sessions_until_long_break :: int
  sound_enabled :: bool
  minimize_to_tray :: bool
  auto_start_break :: bool
  auto_start_work :: bool
  auto_start_on_launch :: bool
  session_count :: int
  is_running :: bool
  is_break :: bool
  time_left :: int
  break_window :: "(int \<times> break_type) option"
  work_var :: string
  break_var :: string
  long_break_var :: string
  sessions_var :: string
  sound_var :: bool
  auto_break_var :: bool
  auto_work_var :: bool
  auto_launch_var :: bool
  tray_var :: bool

definition start_timer :: "'a timer_core_scheme \<Rightarrow> 'a timer_core_scheme" where
  "start_timer s = s\<lparr>is_running := True\<rparr>"

definition stop_timer :: "'a timer_core_scheme \<Rightarrow> 'a timer_core_scheme" where
  "stop_timer s = s\<lparr>is_running := False\<rparr>"

definition toggle_timer :: "'a timer_core_scheme \<Rightarrow> 'a timer_core_scheme" where
  "toggle_timer s = (if is_running s then stop_timer s else start_timer s)"

definition show_break_window ::
  "int \<Rightarrow> break_type \<Rightarrow> 'a timer_core_scheme \<Rightarrow> 'a timer_core_scheme" where
  "show_break_window minutes type s = s\<lparr>break_window := Some (minutes, type)\<rparr>"

definition close_break_window :: "'a timer_core_scheme \<Rightarrow> 'a timer_core_scheme" where
  "close_break_window s = s\<lparr>break_window := None\<rparr>"

text \<open>
  \<open>on_timer_complete\<close> has the same text in both files. The local \<open>break_minutes\<close> of the
  work branch is read from the form (\<open>long_break_var\<close> or \<open>break_var\<close>), falling back on
  the attribute; the attribute itself is not assigned.
\<close>

definition on_timer_complete :: "'a timer_core_scheme \<Rightarrow> 'a timer_core_scheme" where
  "on_timer_complete s =
     (if is_break s then
        (let s1 = close_break_window s;
             s2 = s1\<lparr>is_break := False\<rparr>;
             s3 = s2\<lparr>work_minutes := reread (work_var s2) (work_minutes s2)\<rparr>;
             s4 = s3\<lparr>time_left := work_minutes s3 * 60\<rparr>
         in if auto_work_var s4 then start_timer s4 else s4\<lparr>is_running := False\<rparr>)
      else
        (let s1 = s\<lparr>session_count := session_count s + 1\<rparr>;
             long = (session_count s1 \<ge> sessions_until_long_break s1);
             minutes = (if long then reread (long_break_var s1) (long_break_minutes s1)
                        else reread (break_var s1) (break_minutes s1));
             type = (if long then Long else Short);
             s2 = (if long then s1\<lparr>session_count := 0\<rparr> else s1);
             s3 = s2\<lparr>is_break := True\<rparr>;
             s4 = s3\<lparr>time_left := minutes * 60\<rparr>;
             s5 = show_break_window minutes type s4
         in if auto_break_var s5 then start_timer s5 else s5\<lparr>is_running := False\<rparr>))"

section \<open>The integrated application\<close>

text \<open>
  The attributes \<open>complete_integrated_app.py\<close> adds. \<open>tray_available\<close> and
  \<open>activity_detection_available\<close> are the module constants \<open>TRAY_AVAILABLE\<close> and
  \<open>ACTIVITY_DETECTION_AVAILABLE\<close>, fixed when the module is imported; no operation
  assigns them.
\<close>

record app = timer_core +
  auto_restart_on_skip :: bool
  activity_detection_enabled :: bool
  inactivity_timeout :: int
  pause_during_breaks :: bool
  is_paused :: bool
  pause_reason :: string
  activity_monitor :: activity_monitor
  timeout_var :: string
  auto_skip_var :: bool
  activity_var :: bool
  pause_breaks_var :: bool
  tray_available :: bool
  activity_detection_available :: bool

definition reset_timer :: "app \<Rightarrow> app" where
  "reset_timer s =
     (let s1 = s\<lparr>is_running := False, is_break := False, is_paused := False,
                  session_count := 0\<rparr>;
          s2 = s1\<lparr>work_minutes := reread (work_var s1) (work_minutes s1)\<rparr>;
          s3 = s2\<lparr>time_left := work_minutes s2 * 60\<rparr>
      in s3\<lparr>break_window := None\<rparr>)"

definition skip_break :: "app \<Rightarrow> app" where
  "skip_break s =
     (let s1 = close_break_window s;
          s2 = s1\<lparr>is_running := False, is_break := False, is_paused := False\<rparr>;
          s3 = s2\<lparr>work_minutes := reread (work_var s2) (work_minutes s2)\<rparr>;
          s4 = s3\<lparr>time_left := work_minutes s3 * 60\<rparr>
      in if auto_skip_var s4 then start_timer s4 else s4)"

subsection \<open>Loading and saving the configuration\<close>

definition default_config :: "(string \<times> json) list" where
  "default_config =
     [(''work_minutes'', JInt 25),
      (''break_minutes'', JInt 5),
      (''long_break_minutes'', JInt 15),
      (''sessions_until_long_break'', JInt 4),
      (''sound_enabled'', JBool True),
      (''minimize_to_tray'', JBool True),
      (''auto_start_break'', JBool True),
      (''auto_start_work'', JBool False),
      (''auto_start_on_launch'', JBool True),
      (''auto_restart_on_skip'', JBool True),
      (''activity_detection_enabled'', JBool True),
      (''inactivity_timeout'', JInt 60),
      (''pause_during_breaks'', JBool False)]"

text \<open>\<open>config.get(key, value)\<close>; only a dictionary has the method.\<close>

definition config_get :: "json \<Rightarrow> string \<Rightarrow> json \<Rightarrow> py_exception + json" where
  "config_get config key value =
     (case config of
        JObj items \<Rightarrow> (case map_of items key of Some v \<Rightarrow> Inr v | None \<Rightarrow> Inr value)
      | _ \<Rightarrow> Inl AttributeError)"

text \<open>
  The loop \<open>for key, value in default_config.items(): setattr(self, key, config.get(key, value))\<close>.
  The result is the list of the assignments made, in order; the first exception ends it.
\<close>

fun set_from_config :: "json \<Rightarrow> (string \<times> json) list \<Rightarrow> py_exception + (string \<times> json) list" where
  "set_from_config config [] = Inr []"
| "set_from_config config ((key, value) # rest) =
     (case config_get config key value of
        Inl e \<Rightarrow> Inl e
      | Inr v \<Rightarrow> (case set_from_config config rest of
                    Inl e \<Rightarrow> Inl e
                  | Inr done \<Rightarrow> Inr ((key, v) # done)))"

text \<open>The body of the \<open>try\<close> of \<open>load_config\<close>.\<close>

definition read_config :: "config_file \<Rightarrow> py_exception + (string \<times> json) list" where
  "read_config f =
     (case f of
        Missing \<Rightarrow> Inl OSError
      | Open_fails \<Rightarrow> Inl OSError
      | Undecodable \<Rightarrow> Inl ValueError
      | Parsed config \<Rightarrow> set_from_config config default_config)"

text \<open>
  \<open>load_config\<close> returns the settings attributes it assigns, as (name, value) pairs. The
  bare \<open>except\<close> assigns every default; an exception of \<open>config.get\<close> is raised at the
  first key, before any attribute is assigned.
\<close>

definition load_config :: "config_file \<Rightarrow> (string \<times> json) list" where
  "load_config f =
     (if f \<noteq> Missing then
        (case read_config f of Inr attrs \<Rightarrow> attrs | Inl e \<Rightarrow> default_config)
      else default_config)"

definition save_config :: "app \<Rightarrow> json" where
  "save_config s =
     JObj [(''work_minutes'', JInt (work_minutes s)),
           (''break_minutes'', JInt (break_minutes s)),
           (''long_break_minutes'', JInt (long_break_minutes s)),
           (''sessions_until_long_break'', JInt (sessions_until_long_break s)),
           (''sound_enabled'', JBool (sound_enabled s)),
           (''minimize_to_tray'', JBool (minimize_to_tray s)),
           (''auto_start_break'', JBool (auto_start_break s)),
           (''auto_start_work'', JBool (auto_start_work s)),
           (''auto_start_on_launch'', JBool (auto_start_on_launch s)),
           (''auto_restart_on_skip'', JBool (auto_restart_on_skip s)),
           (''activity_detection_enabled'', JBool (activity_detection_enabled s)),
           (''inactivity_timeout'', JInt (inactivity_timeout s)),
           (''pause_during_breaks'', JBool (pause_during_breaks s))]"

subsection \<open>Start-up\<close>

definition attr_int :: "(string \<times> json) list \<Rightarrow> string \<Rightarrow> int option" where
  "attr_int attrs key = (case map_of attrs key of Some (JInt n) \<Rightarrow> Some n | _ \<Rightarrow> None)"

definition attr_bool :: "(string \<times> json) list \<Rightarrow> string \<Rightarrow> bool option" where
  "attr_bool attrs key = (case map_of attrs key of Some (JBool b) \<Rightarrow> Some b | _ \<Rightarrow> None)"

text \<open>
  \<open>BreakReminderApp.__init__\<close>, for the start time \<open>now\<close>, the two module constants and the
  \<open>--minimized\<close> flag. The result is \<open>None\<close> when a loaded value is not of the type the
  settings form writes (an integer for the five numbers, a boolean for the flags): the
  Python keeps such a value as it is, and this model does not follow it further. It is
  \<open>None\<close> also when \<open>str\<close> raises in \<open>setup_ui\<close>, which ends \<open>__init__\<close>.
\<close>

definition init_app :: "bool \<Rightarrow> bool \<Rightarrow> bool \<Rightarrow> rat \<Rightarrow> config_file \<Rightarrow> app option" where
  "init_app start_minimized tray activity now f =
     (let attrs = load_config f in
      do {
        wm \<leftarrow> attr_int attrs ''work_minutes'';
        bm \<leftarrow> attr_int attrs ''break_minutes'';
        lm \<leftarrow> attr_int attrs ''long_break_minutes'';
        k \<leftarrow> attr_int attrs ''sessions_until_long_break'';
        snd_on \<leftarrow> attr_bool attrs ''sound_enabled'';
        to_tray \<leftarrow> attr_bool attrs ''minimize_to_tray'';
        auto_break \<leftarrow> attr_bool attrs ''auto_start_break'';
        auto_work \<leftarrow> attr_bool attrs ''auto_start_work'';
        auto_launch \<leftarrow> attr_bool attrs ''auto_start_on_launch'';
        auto_skip \<leftarrow> attr_bool attrs ''auto_restart_on_skip'';
        detect \<leftarrow> attr_bool attrs ''activity_detection_enabled'';
        tmo \<leftarrow> attr_int attrs ''inactivity_timeout'';
        pause_breaks \<leftarrow> attr_bool attrs ''pause_during_breaks'';
        work_text \<leftarrow> py_str wm;
        break_text \<leftarrow> py_str bm;
        long_break_text \<leftarrow> py_str lm;
        sessions_text \<leftarrow> py_str k;
        timeout_text \<leftarrow> py_str tmo;
        let monitor = \<lparr>callback = True, timeout = tmo, last_activity = now,
                        is_active = True, running = False\<rparr>;
        let s = \<lparr>work_minutes = wm, break_minutes = bm, long_break_minutes = lm,
                  sessions_until_long_break = k, sound_enabled = snd_on,
                  minimize_to_tray = to_tray, auto_start_break = auto_break,
                  auto_start_work = auto_work, auto_start_on_launch = auto_launch,
                  session_count = 0, is_running = False, is_break = False,
                  time_left = wm * 60, break_window = None,
                  work_var = work_text, break_var = break_text,
                  long_break_var = long_break_text,
                  sessions_var = sessions_text, sound_var = snd_on, auto_break_var = auto_break,
                  auto_work_var = auto_work, auto_launch_var = auto_launch,
                  tray_var = to_tray,
                  auto_restart_on_skip = auto_skip, activity_detection_enabled = detect,
                  inactivity_timeout = tmo, pause_during_breaks = pause_breaks,
                  is_paused = False, pause_reason = [],
                  activity_monitor = monitor,
                  timeout_var = timeout_text, auto_skip_var = auto_skip, activity_var = detect,
                  pause_breaks_var = pause_breaks,
                  tray_available = tray, activity_detection_available = activity\<rparr>;
        let s1 = (if activity_detection_enabled s \<and> activity
                  then s\<lparr>activity_monitor := start_monitoring activity now (activity_monitor s)\<rparr>
                  else s);
        Some (if auto_start_on_launch s1 \<and> \<not> start_minimized then start_timer s1 else s1)
      })"

subsection \<open>The timer loop and the activity callback\<close>

definition on_activity_change :: "string \<Rightarrow> app \<Rightarrow> app" where
  "on_activity_change status s =
     (if status = ''paused'' then s\<lparr>is_paused := True, pause_reason := ''Away from computer''\<rparr>
      else if status = ''resumed'' then
        (if is_paused s then s\<lparr>is_paused := False, pause_reason := []\<rparr> else s)
      else s)"

definition should_pause :: "app \<Rightarrow> bool" where
  "should_pause s =
     (activity_detection_enabled s \<and> activity_detection_available s
      \<and> \<not> is_active (activity_monitor s)
      \<and> (\<not> is_break s \<or> pause_during_breaks s))"

text \<open>
  One pass through the body of the \<open>while\<close> loop of \<open>run_timer\<close>, with nothing else running
  during its \<open>time.sleep(1)\<close>. The loop runs the body while
  \<open>is_running \<and> time_left > 0\<close>; see \<open>step\<close> below.
\<close>

definition run_timer_iteration :: "app \<Rightarrow> app" where
  "run_timer_iteration s =
     (if \<not> should_pause s \<or> \<not> is_paused s then
        (let s1 = (if is_paused s \<and> \<not> should_pause s
                   then s\<lparr>is_paused := False, pause_reason := []\<rparr> else s)
         in if \<not> is_paused s1 then s1\<lparr>time_left := time_left s1 - 1\<rparr> else s1)
      else
        (if \<not> is_paused s then s\<lparr>is_paused := True, pause_reason := ''Away from computer''\<rparr>
         else s))"

definition toggle_activity_detection :: "rat \<Rightarrow> app \<Rightarrow> app" where
  "toggle_activity_detection now s =
     (if \<not> activity_detection_available s then s\<lparr>activity_var := False\<rparr>
      else if activity_var s then
        s\<lparr>activity_monitor := start_monitoring (activity_detection_available s) now (activity_monitor s)\<rparr>
      else s\<lparr>activity_monitor := stop_monitoring (activity_monitor s)\<rparr>)"

subsection \<open>Saving the settings form\<close>

text \<open>\<open>int(var.get()) if var.get() else default\<close>, as \<open>save_settings\<close> writes it.\<close>

definition parse_field :: "string \<Rightarrow> int \<Rightarrow> py_exception + int" where
  "parse_field v dflt =
     (if v = [] then Inr dflt
      else case py_int v of Some n \<Rightarrow> Inr n | None \<Rightarrow> Inl ValueError)"

text \<open>
  How a call of \<open>save_settings\<close> ends: the file is written with the given value and
  the information dialog is shown; or the handler of \<open>ValueError\<close> shows the error dialog;
  or an exception that is not a \<open>ValueError\<close> leaves the function (\<open>open\<close> for writing
  raises when \<open>writable\<close> is false).
\<close>

datatype save_outcome = Saved json | Error_shown | Propagates py_exception

definition save_settings :: "rat \<Rightarrow> bool \<Rightarrow> app \<Rightarrow> app \<times> save_outcome" where
  "save_settings now writable s =
     (case parse_field (work_var s) 25 of
        Inl e \<Rightarrow> (s, Error_shown)
      | Inr wm \<Rightarrow>
     let s1 = s\<lparr>work_minutes := wm\<rparr> in
     case parse_field (break_var s1) 5 of
        Inl e \<Rightarrow> (s1, Error_shown)
      | Inr bm \<Rightarrow>
     let s2 = s1\<lparr>break_minutes := bm\<rparr> in
     case parse_field (long_break_var s2) 15 of
        Inl e \<Rightarrow> (s2, Error_shown)
      | Inr lm \<Rightarrow>
     let s3 = s2\<lparr>long_break_minutes := lm\<rparr> in
     case parse_field (sessions_var s3) 4 of
        Inl e \<Rightarrow> (s3, Error_shown)
      | Inr k \<Rightarrow>
     let s4 = s3\<lparr>sessions_until_long_break := k\<rparr> in
     case parse_field (timeout_var s4) 60 of
        Inl e \<Rightarrow> (s4, Error_shown)
      | Inr tmo \<Rightarrow>
     let s5 = s4\<lparr>inactivity_timeout := tmo\<rparr>;
         s6 = s5\<lparr>sound_enabled := sound_var s5,
                 auto_start_break := auto_break_var s5,
                 auto_start_work := auto_work_var s5,
                 auto_start_on_launch := auto_launch_var s5,
                 auto_restart_on_skip := auto_skip_var s5,
                 activity_detection_enabled := activity_var s5,
                 pause_during_breaks := pause_breaks_var s5\<rparr>;
         s7 = (if tray_available s6 then s6\<lparr>minimize_to_tray := tray_var s6\<rparr> else s6);
         s8 = s7\<lparr>activity_monitor := (activity_monitor s7)\<lparr>timeout := inactivity_timeout s7\<rparr>\<rparr>;
         s9 = (if activity_detection_enabled s8 \<and> activity_detection_available s8 then
                 (if \<not> running (activity_monitor s8)
                  then s8\<lparr>activity_monitor :=
                            start_monitoring (activity_detection_available s8) now (activity_monitor s8)\<rparr>
                  else s8)
               else
                 (if running (activity_monitor s8)
                  then s8\<lparr>activity_monitor := stop_monitoring (activity_monitor s8)\<rparr>
                  else s8))
     in if writable then (s9, Saved (save_config s9)) else (s9, Propagates OSError))"

subsection \<open>What can happen to a running application\<close>

text \<open>
  The callers of the operations above: the timer thread (\<open>Timer_tick\<close> is one pass of its
  loop, \<open>Timer_complete\<close> the \<open>on_timer_complete\<close> it schedules when the loop ends at zero),
  the input listeners and the monitor thread (both only while monitoring runs), and the
  user at the window: the buttons, the five spin boxes and the check boxes. The skip
  button belongs to the break window. Events are taken one at a time.
\<close>

datatype event =
    Timer_tick
  | Timer_complete
  | Input_event rat
  | Monitor_check rat
  | Click_start_stop
  | Click_reset
  | Click_skip
  | Click_save rat bool
  | Edit_work string
  | Edit_break string
  | Edit_long_break string
  | Edit_sessions string
  | Edit_timeout string
  | Set_sound bool
  | Set_auto_break bool
  | Set_auto_work bool
  | Set_auto_launch bool
  | Set_auto_skip bool
  | Set_activity bool rat
  | Set_pause_breaks bool
  | Set_tray bool

definition deliver :: "activity_monitor \<times> string option \<Rightarrow> app \<Rightarrow> app" where
  "deliver r s =
     (let s1 = s\<lparr>activity_monitor := fst r\<rparr>
      in case snd r of None \<Rightarrow> s1 | Some status \<Rightarrow> on_activity_change status s1)"

fun step :: "event \<Rightarrow> app \<Rightarrow> app" where
  "step Timer_tick s = (if is_running s \<and> time_left s > 0 then run_timer_iteration s else s)"
| "step Timer_complete s = (if is_running s \<and> time_left s = 0 then on_timer_complete s else s)"
| "step (Input_event now) s =
     (if running (activity_monitor s) then deliver (on_activity now (activity_monitor s)) s else s)"
| "step (Monitor_check now) s =
     (if running (activity_monitor s) then deliver (monitor_activity now (activity_monitor s)) s
      else s)"
| "step Click_start_stop s = toggle_timer s"
| "step Click_reset s = reset_timer s"
| "step Click_skip s = (if break_window s \<noteq> None then skip_break s else s)"
| "step (Click_save now writable) s = fst (save_settings now writable s)"
| "step (Edit_work v) s = s\<lparr>work_var := v\<rparr>"
| "step (Edit_break v) s = s\<lparr>break_var := v\<rparr>"
| "step (Edit_long_break v) s = s\<lparr>long_break_var := v\<rparr>"
| "step (Edit_sessions v) s = s\<lparr>sessions_var := v\<rparr>"
| "step (Edit_timeout v) s = s\<lparr>timeout_var := v\<rparr>"
| "step (Set_sound b) s = s\<lparr>sound_var := b\<rparr>"
| "step (Set_auto_break b) s = s\<lparr>auto_break_var := b\<rparr>"
| "step (Set_auto_work b) s = s\<lparr>auto_work_var := b\<rparr>"
| "step (Set_auto_launch b) s = s\<lparr>auto_launch_var := b\<rparr>"
| "step (Set_auto_skip b) s = s\<lparr>auto_skip_var := b\<rparr>"
| "step (Set_activity b now) s = toggle_activity_detection now (s\<lparr>activity_var := b\<rparr>)"
| "step (Set_pause_breaks b) s = s\<lparr>pause_breaks_var := b\<rparr>"
| "step (Set_tray b) s = s\<lparr>tray_var := b\<rparr>"

fun run :: "event list \<Rightarrow> app \<Rightarrow> app" where
  "run [] s = s"
| "run (e # es) s = run es (step e s)"

section \<open>The standalone application\<close>

record standalone_app = timer_core +
  pause_on_idle :: bool
  idle_threshold :: int
  custom_sound_path :: string
  idle_var :: string
  pause_idle_var :: bool

definition standalone_skip_break :: "standalone_app \<Rightarrow> standalone_app" where
  "standalone_skip_break s =
     (let s1 = close_break_window s;
          s2 = s1\<lparr>is_break := False\<rparr>;
          s3 = s2\<lparr>work_minutes := reread (work_var s2) (work_minutes s2)\<rparr>;
          s4 = s3\<lparr>time_left := work_minutes s3 * 60\<rparr>
      in start_timer s4)"

section \<open>Observations used in the properties\<close>

text \<open>
  The phase of the timer as the specification names it. The code keeps \<open>is_break\<close> and
  tells a long break from a short one only in the break window it opens.
\<close>

datatype phase = Working | ShortBreak | LongBreak

definition phase_of :: "'a timer_core_scheme \<Rightarrow> phase" where
  "phase_of s =
     (if \<not> is_break s then Working
      else case break_window s of Some (minutes, Long) \<Rightarrow> LongBreak | _ \<Rightarrow> ShortBreak)"

text \<open>One work session and the break after it, both run to their end.\<close>

definition work_cycle :: "'a timer_core_scheme \<Rightarrow> 'a timer_core_scheme" where
  "work_cycle s = on_timer_complete (on_timer_complete s)"

text \<open>
  The application right after start-up at time 0 with no configuration file, both optional
  packages present and no \<open>--minimized\<close> flag (\<open>init_app_default\<close> below).
\<close>

definition default_app :: app where
  "default_app =
     \<lparr>work_minutes = 25, break_minutes = 5, long_break_minutes = 15,
      sessions_until_long_break = 4, sound_enabled = True, minimize_to_tray = True,
      auto_start_break = True, auto_start_work = False, auto_start_on_launch = True,
      session_count = 0, is_running = True, is_break = False, time_left = 1500,
      break_window = None, work_var = ''25'', break_var = ''5'', long_break_var = ''15'',
      sessions_var = ''4'', sound_var = True, auto_break_var = True, auto_work_var = False,
      auto_launch_var = True, tray_var = True, auto_restart_on_skip = True,
      activity_detection_enabled = True, inactivity_timeout = 60,
      pause_during_breaks = False, is_paused = False, pause_reason = [],
      activity_monitor = \<lparr>callback = True, timeout = 60, last_activity = 0,
                           is_active = True, running = True\<rparr>,
      timeout_var = ''60'', auto_skip_var = True, activity_var = True,
      pause_breaks_var = False, tray_available = True,
      activity_detection_available = True\<rparr>"

text \<open>
  The standalone application right after start-up with no configuration file: the defaults
  of its \<open>load_config\<close>, and the timer started by \<open>auto_start_on_launch\<close>.
\<close>

definition standalone_default_app :: standalone_app where
  "standalone_default_app =
     \<lparr>work_minutes = 25, break_minutes = 5, long_break_minutes = 15,
      sessions_until_long_break = 4, sound_enabled = True, minimize_to_tray = True,
      auto_start_break = True, auto_start_work = False, auto_start_on_launch = True,
      session_count = 0, is_running = True, is_break = False, time_left = 1500,
      break_window = None, work_var = ''25'', break_var = ''5'', long_break_var = ''15'',
      sessions_var = ''4'', sound_var = True, auto_break_var = True, auto_work_var = False,
      auto_launch_var = True, tray_var = True,
      pause_on_idle = True, idle_threshold = 300, custom_sound_path = [],
      idle_var = ''300'', pause_idle_var = True\<rparr>"

text \<open>
  The attributes a dictionary \<open>items\<close> gives for the keys of \<open>defaults\<close>, each key absent
  from \<open>items\<close> taking its default.
\<close>

definition filled_from ::
  "(string \<times> json) list \<Rightarrow> (string \<times> json) list \<Rightarrow> (string \<times> json) list" where
  "filled_from items defaults =
     map (\<lambda>(key, value). (key, case map_of items key of Some v \<Rightarrow> v | None \<Rightarrow> value)) defaults"

text \<open>A form field that is not empty and that \<open>int\<close> rejects.\<close>

definition rejected :: "string \<Rightarrow> bool" where
  "rejected v = (v \<noteq> [] \<and> py_int v = None)"

text \<open>The default application after the user typed 30 into the work field and abc into the break field.\<close>

definition edited_app :: app where
  "edited_app = run [Edit_work ''30'', Edit_break ''abc''] default_app"

text \<open>
  The bound of the specification: the time left is at most the length the current settings
  give the current phase.
\<close>

definition spec_phase_bound :: "app \<Rightarrow> bool" where
  "spec_phase_bound s =
     (time_left s \<le> (case phase_of s of
                        Working \<Rightarrow> work_minutes s * 60
                      | ShortBreak \<Rightarrow> break_minutes s * 60
                      | LongBreak \<Rightarrow> long_break_minutes s * 60))"

text \<open>
  The bound the code keeps: the time left is at most \<open>work_minutes * 60\<close> while working, and
  in a break at most 60 times the minutes the break window was opened with.
\<close>

definition phase_bound :: "app \<Rightarrow> bool" where
  "phase_bound s =
     (if is_break s then
        (case break_window s of Some (minutes, type) \<Rightarrow> time_left s \<le> minutes * 60 | None \<Rightarrow> False)
      else time_left s \<le> work_minutes s * 60)"

fun is_save :: "event \<Rightarrow> bool" where
  "is_save (Click_save now writable) = True"
| "is_save e = False"

text \<open>Every numeric field of the form shows the setting it belongs to, as \<open>setup_ui\<close> wrote it.\<close>

definition form_unedited :: "app \<Rightarrow> bool" where
  "form_unedited s =
     (py_str (work_minutes s) = Some (work_var s)
      \<and> py_str (break_minutes s) = Some (break_var s)
      \<and> py_str (long_break_minutes s) = Some (long_break_var s)
      \<and> py_str (sessions_until_long_break s) = Some (sessions_var s)
      \<and> py_str (inactivity_timeout s) = Some (timeout_var s))"

fun is_numeric_edit :: "event \<Rightarrow> bool" where
  "is_numeric_edit (Edit_work v) = True"
| "is_numeric_edit (Edit_break v) = True"
| "is_numeric_edit (Edit_long_break v) = True"
| "is_numeric_edit (Edit_sessions v) = True"
| "is_numeric_edit (Edit_timeout v) = True"
| "is_numeric_edit e = False"

text \<open>
  The invariant behind the first half of C7: the form is unedited, and the break window was
  opened with the minutes of the setting for its kind of break.
\<close>

definition unedited_bound :: "app \<Rightarrow> bool" where
  "unedited_bound s =
     (form_unedited s
      \<and> (is_break s \<longrightarrow>
           (\<exists>m t. break_window s = Some (m, t) \<and> time_left s \<le> m * 60
                 \<and> (t = Long \<longrightarrow> m = long_break_minutes s)
                 \<and> (t = Short \<longrightarrow> m = break_minutes s)))
      \<and> (\<not> is_break s \<longrightarrow> time_left s \<le> work_minutes s * 60))"

text \<open>
  A configuration file with one-minute sessions and \<open>auto_start_work\<close>, and the events
  of a user whose last input is at second 30 of the work session: the session ends at
  second 60, the monitor notices the absence at second 91, in the break, and the break
  ends at second 120 with the user still away. \<open>away_app\<close> is the state this ends in
  (\<open>away_app_reached\<close> below).
\<close>

definition quick_config :: config_file where
  "quick_config = Parsed (JObj [(''work_minutes'', JInt 1), (''break_minutes'', JInt 1),
                                (''auto_start_work'', JBool True)])"

definition away_trace :: "event list" where
  "away_trace = replicate 30 Timer_tick @ [Input_event 30] @ replicate 30 Timer_tick
                @ [Timer_complete] @ replicate 30 Timer_tick @ [Monitor_check 91]
                @ replicate 30 Timer_tick @ [Timer_complete]"

definition away_app :: app where
  "away_app =
     \<lparr>work_minutes = 1, break_minutes = 1, long_break_minutes = 15,
      sessions_until_long_break = 4, sound_enabled = True, minimize_to_tray = True,
      auto_start_break = True, auto_start_work = True, auto_start_on_launch = True,
      session_count = 1, is_running = True, is_break = False, time_left = 60,
      break_window = None, work_var = ''1'', break_var = ''1'', long_break_var = ''15'',
      sessions_var = ''4'', sound_var = True, auto_break_var = True, auto_work_var = True,
      auto_launch_var = True, tray_var = True, auto_restart_on_skip = True,
      activity_detection_enabled = True, inactivity_timeout = 60,
      pause_during_breaks = False, is_paused = False, pause_reason = [],
      activity_monitor = \<lparr>callback = True, timeout = 60, last_activity = 30,
                           is_active = False, running = True\<rparr>,
      timeout_var = ''60'', auto_skip_var = True, activity_var = True,
      pause_breaks_var = False, tray_available = True,
      activity_detection_available = True\<rparr>"

text \<open>
  With the same configuration file: the first work session has run out, the short break
  has begun, and the user has unticked the box "Auto-restart work when skipping break"
  without saving. \<open>unticked_break_app\<close> is the state this ends in
  (\<open>unticked_break_app_reached\<close> below).
\<close>

definition unticked_break_trace :: "event list" where
  "unticked_break_trace = replicate 60 Timer_tick @ [Timer_complete, Set_auto_skip False]"

definition unticked_break_app :: app where
  "unticked_break_app =
     \<lparr>work_minutes = 1, break_minutes = 1, long_break_minutes = 15,
      sessions_until_long_break = 4, sound_enabled = True, minimize_to_tray = True,
      auto_start_break = True, auto_start_work = True, auto_start_on_launch = True,
      session_count = 1, is_running = True, is_break = True, time_left = 60,
      break_window = Some (1, Short), work_var = ''1'', break_var = ''1'',
      long_break_var = ''15'', sessions_var = ''4'', sound_var = True,
      auto_break_var = True, auto_work_var = True, auto_launch_var = True, tray_var = True,
      auto_restart_on_skip = True, activity_detection_enabled = True,
      inactivity_timeout = 60, pause_during_breaks = False, is_paused = False,
      pause_reason = [],
      activity_monitor = \<lparr>callback = True, timeout = 60, last_activity = 0,
                           is_active = True, running = True\<rparr>,
      timeout_var = ''60'', auto_skip_var = False, activity_var = True,
      pause_breaks_var = False, tray_available = True,
      activity_detection_available = True\<rparr>"

section \<open>Basic facts\<close>

lemmas timer_defs = on_timer_complete_def start_timer_def stop_timer_def toggle_timer_def
  show_break_window_def close_break_window_def

lemmas py_int_defs = py_int_def py_strip_def is_py_space_def py_unsigned_def is_py_digit_def
  py_digit_def int_max_str_digits_def reread_def parse_field_def

lemmas py_str_defs = py_str_def py_decimal_def int_max_str_digits_def nat_digits.simps

text \<open>
  The parser on some fields: blanks around a number, the two blanks above 127, a separator
  character, a sign, underscores.
\<close>

lemma py_int_examples:
  "py_int '' 42  '' = Some 42"
  "py_int [CHR 0xA0, CHR ''5'', CHR 0x85] = Some 5"
  "py_int [CHR ''5'', CHR 0x1F] = None"
  "py_int [CHR 0x1C, CHR ''5''] = None"
  "py_int ''-7'' = Some (- 7)"
  "py_int ''+007'' = Some 7"
  "py_int ''1_000'' = Some 1000"
  "py_int ''1__0'' = None"
  "py_int ''_1'' = None"
  "py_int ''1_'' = None"
  "py_int ''- 1'' = None"
  "py_int ''abc'' = None"
  "py_int [] = None"
  by (simp_all add: py_int_defs)

lemma init_app_default: "init_app False True True 0 Missing = Some default_app"
  by (simp add: init_app_def load_config_def default_config_def attr_int_def attr_bool_def
      start_timer_def start_monitoring_def py_str_defs default_app_def)

section \<open>Edge-triggered activity signals\<close>

text \<open>
  C9. An input event always leaves the monitor active with the time stamp of the event,
  and calls the callback with \<open>resumed\<close> exactly when the monitor was inactive before (and a
  callback is set). The periodic check calls it with \<open>paused\<close> exactly when the monitor is
  active and the time since the last activity is greater than the timeout, and that is the
  only case in which the check changes \<open>is_active\<close>. Neither emits a signal when \<open>is_active\<close>
  is the same before and after.
\<close>

theorem activity_signals_edge_triggered:
  "is_active (fst (on_activity now m))
   \<and> last_activity (fst (on_activity now m)) = now
   \<and> (snd (on_activity now m) = Some ''resumed'') = (\<not> is_active m \<and> callback m)
   \<and> (snd (on_activity now m) = None) = (is_active m \<or> \<not> callback m)
   \<and> (snd (monitor_activity now m) = Some ''paused'')
       = (is_active m \<and> now - last_activity m > of_int (timeout m) \<and> callback m)
   \<and> (snd (monitor_activity now m) = None)
       = (\<not> (is_active m \<and> now - last_activity m > of_int (timeout m)) \<or> \<not> callback m)
   \<and> is_active (fst (monitor_activity now m))
       = (is_active m \<and> \<not> now - last_activity m > of_int (timeout m))
   \<and> (is_active (fst (on_activity now m)) = is_active m \<longrightarrow> snd (on_activity now m) = None)
   \<and> (is_active (fst (monitor_activity now m)) = is_active m
        \<longrightarrow> snd (monitor_activity now m) = None)"
  by (auto simp: on_activity_def monitor_activity_def Let_def)

theorem activity_signals_edge_triggered_witness:
  "is_active (fst (monitor_activity 30
       \<lparr>callback = True, timeout = 60, last_activity = 0, is_active = True, running = True\<rparr>))
   \<and> snd (monitor_activity 30
       \<lparr>callback = True, timeout = 60, last_activity = 0, is_active = True, running = True\<rparr>) = None
   \<and> snd (on_activity 30
       \<lparr>callback = True, timeout = 60, last_activity = 0, is_active = True, running = True\<rparr>) = None
   \<and> snd (monitor_activity 61
       \<lparr>callback = True, timeout = 60, last_activity = 0, is_active = True, running = True\<rparr>)
       = Some ''paused''
   \<and> snd (on_activity 62
       \<lparr>callback = True, timeout = 60, last_activity = 0, is_active = False, running = True\<rparr>)
       = Some ''resumed''"
  using activity_signals_edge_triggered
          [of 30 "\<lparr>callback = True, timeout = 60, last_activity = 0, is_active = True, running = True\<rparr>"]
        activity_signals_edge_triggered
          [of 61 "\<lparr>callback = True, timeout = 60, last_activity = 0, is_active = True, running = True\<rparr>"]
        activity_signals_edge_triggered
          [of 62 "\<lparr>callback = True, timeout = 60, last_activity = 0, is_active = False, running = True\<rparr>"]
  by (simp add: on_activity_def monitor_activity_def Let_def)

section \<open>Session counting and the long break\<close>

lemma next_count_mod:
  fixes c K :: int
  assumes "0 \<le> c" "c < K"
  shows "(if c + 1 \<ge> K then 0 else c + 1) = (c + 1) mod K"
    and "((c + 1) mod K = 0) = (c + 1 \<ge> K)"
proof -
  consider "c + 1 = K" | "c + 1 < K" using assms by linarith
  then have "(if c + 1 \<ge> K then 0 else c + 1) = (c + 1) mod K
             \<and> ((c + 1) mod K = 0) = (c + 1 \<ge> K)"
  proof cases
    case 1
    then show ?thesis by simp
  next
    case 2
    then show ?thesis using assms by (simp add: mod_pos_pos_trivial)
  qed
  then show "(if c + 1 \<ge> K then 0 else c + 1) = (c + 1) mod K"
    and "((c + 1) mod K = 0) = (c + 1 \<ge> K)" by simp_all
qed

lemma on_timer_complete_sessions [simp]:
  "sessions_until_long_break (on_timer_complete s) = sessions_until_long_break s"
  by (simp add: timer_defs Let_def)

lemma work_complete:
  "\<not> is_break s \<Longrightarrow>
   is_break (on_timer_complete s)
   \<and> session_count (on_timer_complete s)
       = (if session_count s + 1 \<ge> sessions_until_long_break s then 0 else session_count s + 1)
   \<and> phase_of (on_timer_complete s)
       = (if session_count s + 1 \<ge> sessions_until_long_break s then LongBreak else ShortBreak)"
  by (simp add: timer_defs Let_def phase_of_def)

lemma break_complete:
  "is_break s \<Longrightarrow>
   \<not> is_break (on_timer_complete s) \<and> session_count (on_timer_complete s) = session_count s"
  by (simp add: timer_defs Let_def)

lemma work_cycle_apply: "work_cycle x = on_timer_complete (on_timer_complete x)"
  by (simp add: work_cycle_def)

lemma work_cycle_state:
  assumes "\<not> is_break s" and "0 \<le> session_count s"
    and "session_count s < sessions_until_long_break s"
  shows "\<not> is_break ((work_cycle ^^ i) s)
     \<and> session_count ((work_cycle ^^ i) s)
          = (session_count s + int i) mod sessions_until_long_break s
     \<and> sessions_until_long_break ((work_cycle ^^ i) s) = sessions_until_long_break s"
proof (induction i)
  case 0
  then show ?case using assms by (simp add: mod_pos_pos_trivial)
next
  case (Suc i)
  let ?K = "sessions_until_long_break s"
  let ?w = "(work_cycle ^^ i) s"
  let ?b = "on_timer_complete ?w"
  have w: "\<not> is_break ?w" "session_count ?w = (session_count s + int i) mod ?K"
    "sessions_until_long_break ?w = ?K"
    using Suc.IH by simp_all
  have K: "0 < ?K" using assms by linarith
  have range: "0 \<le> session_count ?w" "session_count ?w < ?K"
    using w(2) K by simp_all
  have b: "is_break ?b" "session_count ?b = (session_count ?w + 1) mod ?K"
    using work_complete[OF w(1)] next_count_mod(1)[OF range] w(3) by simp_all
  have "session_count (on_timer_complete ?b) = ((session_count s + int i) mod ?K + 1) mod ?K"
    using break_complete[OF b(1)] b(2) w(2) by simp
  also have "\<dots> = (session_count s + int i + 1) mod ?K"
    by (rule mod_add_left_eq)
  finally have c: "session_count (on_timer_complete ?b) = (session_count s + int (Suc i)) mod ?K"
    by (simp add: algebra_simps)
  have "(work_cycle ^^ Suc i) s = work_cycle ?w" by simp
  also have "\<dots> = on_timer_complete ?b" by (rule work_cycle_apply)
  finally have unfold: "(work_cycle ^^ Suc i) s = on_timer_complete ?b" .
  have "\<not> is_break (on_timer_complete ?b)"
    using break_complete[OF b(1)] by simp
  moreover have "sessions_until_long_break (on_timer_complete ?b) = ?K"
    using w(3) by simp
  ultimately show ?case
    unfolding unfold using c by simp
qed

text \<open>
  C2. Start in the working phase with \<open>session_count = 0\<close> and
  \<open>sessions_until_long_break = K \<ge> 2\<close>, and let \<open>i\<close> work sessions and their breaks run to
  the end. The timer is then working with \<open>session_count = i mod K\<close>. The next work
  completion enters a break; it counts the session, and when the count reaches \<open>K\<close> the break
  is the long one and the count is back at 0, otherwise the break is the short one and the
  count is one more. The break is the long one exactly when \<open>i + 1\<close> is a multiple of \<open>K\<close>,
  and the stored count stays in \<open>[0, K)\<close>. \<open>on_timer_complete\<close> is the same function for the
  integrated and the standalone application.
\<close>

theorem long_break_every_kth_session:
  assumes "\<not> is_break s" and "session_count s = 0" and "2 \<le> sessions_until_long_break s"
  shows "\<not> is_break ((work_cycle ^^ i) s)
     \<and> session_count ((work_cycle ^^ i) s) = int i mod sessions_until_long_break s
     \<and> is_break (on_timer_complete ((work_cycle ^^ i) s))
     \<and> session_count (on_timer_complete ((work_cycle ^^ i) s))
         = (if session_count ((work_cycle ^^ i) s) + 1 \<ge> sessions_until_long_break s then 0
            else session_count ((work_cycle ^^ i) s) + 1)
     \<and> phase_of (on_timer_complete ((work_cycle ^^ i) s))
         = (if session_count ((work_cycle ^^ i) s) + 1 \<ge> sessions_until_long_break s
            then LongBreak else ShortBreak)
     \<and> (phase_of (on_timer_complete ((work_cycle ^^ i) s)) = LongBreak)
         = ((int i + 1) mod sessions_until_long_break s = 0)
     \<and> 0 \<le> session_count (on_timer_complete ((work_cycle ^^ i) s))
     \<and> session_count (on_timer_complete ((work_cycle ^^ i) s)) < sessions_until_long_break s"
proof -
  let ?K = "sessions_until_long_break s"
  let ?w = "(work_cycle ^^ i) s"
  have pre: "0 \<le> session_count s" "session_count s < ?K" using assms by simp_all
  have w: "\<not> is_break ?w" "session_count ?w = int i mod ?K"
    "sessions_until_long_break ?w = ?K"
    using work_cycle_state[OF assms(1) pre, of i] assms(2) by simp_all
  have K: "0 < ?K" using assms by linarith
  have range: "0 \<le> session_count ?w" "session_count ?w < ?K"
    using w(2) K by simp_all
  have step: "is_break (on_timer_complete ?w)"
    "session_count (on_timer_complete ?w)
       = (if session_count ?w + 1 \<ge> ?K then 0 else session_count ?w + 1)"
    "phase_of (on_timer_complete ?w)
       = (if session_count ?w + 1 \<ge> ?K then LongBreak else ShortBreak)"
    using work_complete[OF w(1)] w(3) by simp_all
  have "(session_count ?w + 1) mod ?K = (int i + 1) mod ?K"
    using w(2) by (simp add: mod_add_left_eq)
  then have long: "(session_count ?w + 1 \<ge> ?K) = ((int i + 1) mod ?K = 0)"
    using next_count_mod(2)[OF range] by simp
  have bound: "0 \<le> session_count (on_timer_complete ?w)"
    "session_count (on_timer_complete ?w) < ?K"
    using step(2) range K by (simp_all split: if_splits)
  show ?thesis
    using w(1,2) step long bound by simp
qed

theorem long_break_every_kth_session_witness:
  "\<not> is_break default_app \<and> session_count default_app = 0
   \<and> 2 \<le> sessions_until_long_break default_app
   \<and> session_count ((work_cycle ^^ 3) default_app) = 3
   \<and> phase_of (on_timer_complete ((work_cycle ^^ 3) default_app)) = LongBreak
   \<and> session_count (on_timer_complete ((work_cycle ^^ 3) default_app)) = 0
   \<and> phase_of (on_timer_complete ((work_cycle ^^ 2) default_app)) = ShortBreak"
  using long_break_every_kth_session [of default_app 3]
        long_break_every_kth_session [of default_app 2]
  by (simp add: default_app_def)

section \<open>Reset and skip\<close>


text \<open>
  The check box of \<open>auto_restart_on_skip\<close> holds the saved setting at start-up and after
  every save that succeeds.
\<close>

lemma init_app_auto_skip:
  "init_app start_minimized tray activity now f = Some s \<Longrightarrow>
   auto_skip_var s = auto_restart_on_skip s"
  by (auto simp: init_app_def Let_def start_timer_def split: Option.bind_splits if_splits)

lemma save_settings_auto_skip:
  assumes "snd (save_settings now writable s) = Saved j"
  shows "auto_restart_on_skip (fst (save_settings now writable s)) = auto_skip_var s
     \<and> auto_skip_var (fst (save_settings now writable s)) = auto_skip_var s"
  using assms
  by (simp add: save_settings_def Let_def split: sum.splits if_splits)

lemma unticked_break_app_reached:
  "map_option (run unticked_break_trace) (init_app False True True 0 quick_config)
   = Some unticked_break_app"
  by code_simp

text \<open>
  C4, as the code has it. \<open>skip_break\<close> called during a break (short or long) ends, within
  the call, in the working phase with the break window closed and
  \<open>time_left = work_minutes * 60\<close>, for the \<open>work_minutes\<close> re-read from the work field.
  The timer runs afterwards exactly when the check box \<open>auto_skip_var\<close> is ticked. The
  saved setting \<open>auto_restart_on_skip\<close> is not read: the call does the same whatever the
  setting is, and leaves the setting as it was.
\<close>

theorem skip_break_in_break:
  assumes "is_break s"
  shows "phase_of (skip_break s) = Working
     \<and> \<not> is_break (skip_break s)
     \<and> work_minutes (skip_break s) = reread (work_var s) (work_minutes s)
     \<and> time_left (skip_break s) = work_minutes (skip_break s) * 60
     \<and> is_running (skip_break s) = auto_skip_var s
     \<and> break_window (skip_break s) = None
     \<and> skip_break (s\<lparr>auto_restart_on_skip := b\<rparr>) = (skip_break s)\<lparr>auto_restart_on_skip := b\<rparr>"
  by (simp add: skip_break_def Let_def phase_of_def timer_defs)

theorem skip_break_in_break_witness:
  "is_break unticked_break_app
   \<and> phase_of (skip_break unticked_break_app) = Working
   \<and> time_left (skip_break unticked_break_app) = 60
   \<and> break_window (skip_break unticked_break_app) = None
   \<and> is_running (skip_break unticked_break_app) = False
   \<and> is_break (step (Set_auto_skip True) unticked_break_app)
   \<and> is_running (skip_break (step (Set_auto_skip True) unticked_break_app)) = True
   \<and> time_left (skip_break (step (Set_auto_skip True) unticked_break_app)) = 60"
proof -
  have h: "is_break unticked_break_app" "is_break (step (Set_auto_skip True) unticked_break_app)"
    by (simp_all add: unticked_break_app_def)
  have v: "auto_skip_var unticked_break_app = False"
    "auto_skip_var (step (Set_auto_skip True) unticked_break_app) = True"
    "reread (work_var unticked_break_app) (work_minutes unticked_break_app) = 1"
    "reread (work_var (step (Set_auto_skip True) unticked_break_app))
       (work_minutes (step (Set_auto_skip True) unticked_break_app)) = 1"
    by (simp_all add: unticked_break_app_def py_int_defs)
  show ?thesis
    using skip_break_in_break [OF h(1), where b = False]
          skip_break_in_break [OF h(2), where b = False] h v
    by simp
qed

text \<open>
  The claim as the specification words it fails: in the break of \<open>unticked_break_app\<close> the
  setting \<open>auto_restart_on_skip\<close> is true, and \<open>skip_break\<close> leaves the timer stopped.
\<close>

theorem skip_break_ignores_saved_flag:
  "map_option (run unticked_break_trace) (init_app False True True 0 quick_config)
     = Some unticked_break_app
   \<and> phase_of unticked_break_app = ShortBreak
   \<and> auto_restart_on_skip unticked_break_app
   \<and> phase_of (skip_break unticked_break_app) = Working
   \<and> \<not> is_running (skip_break unticked_break_app)"
  using unticked_break_app_reached
  by (simp add: unticked_break_app_def skip_break_def Let_def phase_of_def timer_defs)

text \<open>
  C10, as the code has it. \<open>skip_break\<close> called in the working phase is not refused and is
  not a no-op. In the integrated application it sets \<open>time_left\<close> to \<open>work_minutes * 60\<close>
  (so a countdown in progress is lost and the state changes), clears \<open>is_paused\<close>, and
  leaves the timer running exactly when the check box \<open>auto_skip_var\<close> is ticked; the saved
  setting \<open>auto_restart_on_skip\<close> is not read. In the standalone application it sets
  \<open>time_left\<close> the same way and always starts the timer.
\<close>

theorem skip_break_while_working:
  assumes "\<not> is_break s" and "\<not> is_break t"
  shows "phase_of (skip_break s) = Working
     \<and> work_minutes (skip_break s) = reread (work_var s) (work_minutes s)
     \<and> time_left (skip_break s) = work_minutes (skip_break s) * 60
     \<and> \<not> is_paused (skip_break s)
     \<and> is_running (skip_break s) = auto_skip_var s
     \<and> skip_break (s\<lparr>auto_restart_on_skip := b\<rparr>) = (skip_break s)\<lparr>auto_restart_on_skip := b\<rparr>
     \<and> (time_left s \<noteq> reread (work_var s) (work_minutes s) * 60 \<longrightarrow> skip_break s \<noteq> s)
     \<and> phase_of (standalone_skip_break t) = Working
     \<and> work_minutes (standalone_skip_break t) = reread (work_var t) (work_minutes t)
     \<and> time_left (standalone_skip_break t) = work_minutes (standalone_skip_break t) * 60
     \<and> is_running (standalone_skip_break t)
     \<and> (time_left t \<noteq> reread (work_var t) (work_minutes t) * 60
          \<longrightarrow> standalone_skip_break t \<noteq> t)"
proof -
  have a: "time_left (skip_break s) = reread (work_var s) (work_minutes s) * 60"
    by (simp add: skip_break_def Let_def timer_defs)
  have b: "time_left (standalone_skip_break t) = reread (work_var t) (work_minutes t) * 60"
    by (simp add: standalone_skip_break_def Let_def timer_defs)
  have "time_left s \<noteq> reread (work_var s) (work_minutes s) * 60 \<longrightarrow> skip_break s \<noteq> s"
    using a by auto
  moreover have "time_left t \<noteq> reread (work_var t) (work_minutes t) * 60
                 \<longrightarrow> standalone_skip_break t \<noteq> t"
    using b by auto
  ultimately show ?thesis
    by (simp add: skip_break_def standalone_skip_break_def Let_def phase_of_def timer_defs)
qed

theorem skip_break_while_working_witness:
  "\<not> is_break (default_app\<lparr>time_left := 900, is_paused := True\<rparr>)
   \<and> \<not> is_break (standalone_default_app\<lparr>time_left := 900, is_running := False\<rparr>)
   \<and> time_left (skip_break (default_app\<lparr>time_left := 900, is_paused := True\<rparr>)) = 1500
   \<and> \<not> is_paused (skip_break (default_app\<lparr>time_left := 900, is_paused := True\<rparr>))
   \<and> is_running (skip_break (default_app\<lparr>time_left := 900, is_paused := True\<rparr>))
   \<and> skip_break (default_app\<lparr>time_left := 900, is_paused := True\<rparr>)
        \<noteq> default_app\<lparr>time_left := 900, is_paused := True\<rparr>
   \<and> time_left (standalone_skip_break
         (standalone_default_app\<lparr>time_left := 900, is_running := False\<rparr>)) = 1500
   \<and> is_running (standalone_skip_break
         (standalone_default_app\<lparr>time_left := 900, is_running := False\<rparr>))"
  using skip_break_while_working
          [where s = "default_app\<lparr>time_left := 900, is_paused := True\<rparr>"
             and t = "standalone_default_app\<lparr>time_left := 900, is_running := False\<rparr>"
             and b = False]
  by (simp add: default_app_def standalone_default_app_def py_int_defs)

text \<open>
  The claim as worded fails: right after start-up with the defaults the user unticks the
  box without saving, so the setting \<open>auto_restart_on_skip\<close> is still true; \<open>skip_break\<close>
  called in this working phase leaves the timer stopped.
\<close>

theorem skip_break_working_ignores_saved_flag:
  "init_app False True True 0 Missing = Some default_app
   \<and> phase_of (step (Set_auto_skip False) default_app) = Working
   \<and> auto_restart_on_skip (step (Set_auto_skip False) default_app)
   \<and> is_running (step (Set_auto_skip False) default_app)
   \<and> \<not> is_running (skip_break (step (Set_auto_skip False) default_app))"
  using init_app_default
  by (simp add: default_app_def skip_break_def Let_def phase_of_def timer_defs)

section \<open>The configuration file\<close>

lemma set_from_config_object:
  "set_from_config (JObj items) defaults = Inr (filled_from items defaults)"
  by (induction defaults) (auto simp: config_get_def filled_from_def split: option.splits)

lemma set_from_config_not_object:
  assumes "\<And>items. config \<noteq> JObj items"
  shows "set_from_config config (d # defaults) = Inl AttributeError"
  by (cases d; cases config) (use assms in \<open>auto simp: config_get_def\<close>)

lemma load_config_object:
  "load_config (Parsed (JObj items)) = filled_from items default_config"
  by (simp add: load_config_def read_config_def set_from_config_object)

lemma load_config_not_object:
  assumes "\<And>items. config \<noteq> JObj items"
  shows "load_config (Parsed config) = default_config"
proof -
  obtain d ds where eq: "default_config = d # ds" by (simp add: default_config_def)
  have "set_from_config config (d # ds) = Inl AttributeError"
    by (rule set_from_config_not_object[OF assms])
  then have "set_from_config config default_config = Inl AttributeError"
    unfolding eq .
  then show ?thesis
    by (simp add: load_config_def read_config_def)
qed

lemma filled_from_keys: "map fst (filled_from items defaults) = map fst defaults"
  by (induction defaults) (auto simp: filled_from_def)

lemma filled_from_lookup:
  assumes "distinct (map fst defaults)" and "(key, value) \<in> set defaults"
  shows "map_of (filled_from items defaults) key
         = Some (case map_of items key of Some v \<Rightarrow> v | None \<Rightarrow> value)"
  using assms
proof (induction defaults)
  case Nil
  then show ?case by simp
next
  case (Cons d ds)
  then show ?case
    by (cases d) (auto simp: filled_from_def rev_image_eqI)
qed

lemma default_config_distinct: "distinct (map fst default_config)"
  by (simp add: default_config_def)

text \<open>
  C5. \<open>load_config\<close> has a value for every state of the file, and the value assigns each
  of the thirteen settings exactly once, in the order of \<open>default_config\<close>. A file that
  is missing, cannot be opened or cannot be decoded gives exactly \<open>default_config\<close>, and
  so does a file whose JSON value is not an object. For an object, every setting is the
  object's value under its key, or the default of \<open>default_config\<close> when the key is absent.
  A value that is present is taken as it is, whatever its type.
\<close>

theorem load_config_never_fails:
  "map fst (load_config f) = map fst default_config
   \<and> load_config Missing = default_config
   \<and> load_config Open_fails = default_config
   \<and> load_config Undecodable = default_config
   \<and> ((\<forall>items. config \<noteq> JObj items) \<longrightarrow> load_config (Parsed config) = default_config)
   \<and> ((key, value) \<in> set default_config \<longrightarrow>
        map_of (load_config (Parsed (JObj items))) key
          = Some (case map_of items key of Some v \<Rightarrow> v | None \<Rightarrow> value))"
proof -
  have keys: "map fst (load_config f) = map fst default_config"
  proof (cases f)
    case (Parsed config)
    show ?thesis
    proof (cases "\<exists>items. config = JObj items")
      case True
      then show ?thesis using Parsed by (auto simp: load_config_object filled_from_keys)
    next
      case False
      then show ?thesis using Parsed load_config_not_object[of config] by simp
    qed
  qed (simp_all add: load_config_def read_config_def)
  have errs: "load_config Missing = default_config" "load_config Open_fails = default_config"
    "load_config Undecodable = default_config"
    by (simp_all add: load_config_def read_config_def)
  have other: "(\<forall>items. config \<noteq> JObj items) \<longrightarrow> load_config (Parsed config) = default_config"
    using load_config_not_object[of config] by blast
  have look: "(key, value) \<in> set default_config \<longrightarrow>
        map_of (load_config (Parsed (JObj items))) key
          = Some (case map_of items key of Some v \<Rightarrow> v | None \<Rightarrow> value)"
    using filled_from_lookup[OF default_config_distinct] by (simp add: load_config_object)
  show ?thesis using keys errs other look by simp
qed

theorem load_config_never_fails_witness:
  "(\<forall>items. JList [] \<noteq> JObj items)
   \<and> load_config (Parsed (JList [])) = default_config
   \<and> (''break_minutes'', JInt 5) \<in> set default_config
   \<and> (''work_minutes'', JInt 25) \<in> set default_config
   \<and> map_of (load_config (Parsed (JObj [(''work_minutes'', JInt 50)]))) ''break_minutes''
        = Some (JInt 5)
   \<and> map_of (load_config (Parsed (JObj [(''work_minutes'', JInt 50)]))) ''work_minutes''
        = Some (JInt 50)"
  using load_config_never_fails [of Missing "JList []" "''break_minutes''" "JInt 5"
          "[(''work_minutes'', JInt 50)]"]
        load_config_never_fails [of Missing "JList []" "''work_minutes''" "JInt 25"
          "[(''work_minutes'', JInt 50)]"]
  by (simp add: default_config_def)

text \<open>
  C6. The dictionary \<open>save_config\<close> writes, read back by \<open>load_config\<close>, assigns all
  thirteen settings, and each one is the value the application held when it saved: no
  default is substituted and no key is lost. This holds for all values of the settings,
  inside the ranges of the form or not.
\<close>

theorem save_then_load_round_trip:
  "map fst (load_config (Parsed (save_config s))) = map fst default_config
   \<and> attr_int (load_config (Parsed (save_config s))) ''work_minutes'' = Some (work_minutes s)
   \<and> attr_int (load_config (Parsed (save_config s))) ''break_minutes'' = Some (break_minutes s)
   \<and> attr_int (load_config (Parsed (save_config s))) ''long_break_minutes''
        = Some (long_break_minutes s)
   \<and> attr_int (load_config (Parsed (save_config s))) ''sessions_until_long_break''
        = Some (sessions_until_long_break s)
   \<and> attr_bool (load_config (Parsed (save_config s))) ''sound_enabled'' = Some (sound_enabled s)
   \<and> attr_bool (load_config (Parsed (save_config s))) ''minimize_to_tray''
        = Some (minimize_to_tray s)
   \<and> attr_bool (load_config (Parsed (save_config s))) ''auto_start_break''
        = Some (auto_start_break s)
   \<and> attr_bool (load_config (Parsed (save_config s))) ''auto_start_work''
        = Some (auto_start_work s)
   \<and> attr_bool (load_config (Parsed (save_config s))) ''auto_start_on_launch''
        = Some (auto_start_on_launch s)
   \<and> attr_bool (load_config (Parsed (save_config s))) ''auto_restart_on_skip''
        = Some (auto_restart_on_skip s)
   \<and> attr_bool (load_config (Parsed (save_config s))) ''activity_detection_enabled''
        = Some (activity_detection_enabled s)
   \<and> attr_int (load_config (Parsed (save_config s))) ''inactivity_timeout''
        = Some (inactivity_timeout s)
   \<and> attr_bool (load_config (Parsed (save_config s))) ''pause_during_breaks''
        = Some (pause_during_breaks s)"
  by (simp add: save_config_def load_config_object filled_from_def default_config_def
      attr_int_def attr_bool_def)

section \<open>Form fields written at start-up parse back to the settings\<close>

lemma digit_char:
  assumes "k < 10"
  shows "is_py_digit (''0123456789'' ! k)" and "py_digit (''0123456789'' ! k) = int k"
    and "\<not> is_py_space (''0123456789'' ! k)"
    and "''0123456789'' ! k \<noteq> CHR ''-''" and "''0123456789'' ! k \<noteq> CHR ''+''"
proof -
  from assms have "k \<in> {0, 1, 2, 3, 4, 5, 6, 7, 8, 9}" by auto
  then have "is_py_digit (''0123456789'' ! k) \<and> py_digit (''0123456789'' ! k) = int k
      \<and> \<not> is_py_space (''0123456789'' ! k)
      \<and> ''0123456789'' ! k \<noteq> CHR ''-'' \<and> ''0123456789'' ! k \<noteq> CHR ''+''"
    by (auto simp: is_py_digit_def py_digit_def is_py_space_def)
  then show "is_py_digit (''0123456789'' ! k)" and "py_digit (''0123456789'' ! k) = int k"
    and "\<not> is_py_space (''0123456789'' ! k)"
    and "''0123456789'' ! k \<noteq> CHR ''-''" and "''0123456789'' ! k \<noteq> CHR ''+''"
    by simp_all
qed

lemma py_digits_append_digit:
  assumes "\<forall>c \<in> set xs. is_py_digit c" and "is_py_digit d"
  shows "py_digits acc (xs @ [d]) = map_option (\<lambda>a. 10 * a + py_digit d) (py_digits acc xs)"
  using assms by (induction xs arbitrary: acc) simp_all

lemma nat_digits_facts:
  "nat_digits n \<noteq> [] \<and> (\<forall>c \<in> set (nat_digits n). is_py_digit c)
   \<and> \<not> is_py_space (hd (nat_digits n)) \<and> \<not> is_py_space (last (nat_digits n))
   \<and> hd (nat_digits n) \<noteq> CHR ''-'' \<and> hd (nat_digits n) \<noteq> CHR ''+''
   \<and> py_digits 0 (nat_digits n) = Some (int n)"
proof (induction n rule: nat_digits.induct)
  case (1 n)
  show ?case
  proof (cases "n < 10")
    case True
    then have "nat_digits n = [''0123456789'' ! n]" by (simp add: nat_digits.simps)
    then show ?thesis using digit_char[OF True] by simp
  next
    case False
    let ?d = "''0123456789'' ! (n mod 10)"
    have eq: "nat_digits n = nat_digits (n div 10) @ [?d]"
      using False by (subst nat_digits.simps) simp
    have d: "is_py_digit ?d" "py_digit ?d = int (n mod 10)" "\<not> is_py_space ?d"
      using digit_char[of "n mod 10"] by simp_all
    have ih: "nat_digits (n div 10) \<noteq> []" "\<forall>c \<in> set (nat_digits (n div 10)). is_py_digit c"
      "\<not> is_py_space (hd (nat_digits (n div 10)))"
      "hd (nat_digits (n div 10)) \<noteq> CHR ''-''" "hd (nat_digits (n div 10)) \<noteq> CHR ''+''"
      "py_digits 0 (nat_digits (n div 10)) = Some (int (n div 10))"
      using 1[OF False] by simp_all
    have "py_digits 0 (nat_digits n) = Some (10 * int (n div 10) + int (n mod 10))"
      unfolding eq using py_digits_append_digit[OF ih(2) d(1)] ih(6) d(2) by simp
    also have "10 * int (n div 10) + int (n mod 10) = int n"
      by (simp add: zdiv_int zmod_int)
    finally have v: "py_digits 0 (nat_digits n) = Some (int n)" .
    show ?thesis
      unfolding eq using ih d v[unfolded eq] by (simp add: hd_append)
  qed
qed

lemma py_strip_id:
  assumes "s \<noteq> []" and "\<not> is_py_space (hd s)" and "\<not> is_py_space (last s)"
  shows "py_strip s = s"
proof -
  have a: "dropWhile is_py_space s = s"
    using assms(1,2) by (cases s) simp_all
  have "rev s \<noteq> []" "\<not> is_py_space (hd (rev s))"
    using assms(1,3) by (simp_all add: hd_rev)
  then have "dropWhile is_py_space (rev s) = rev s"
    by (cases "rev s") simp_all
  then show ?thesis by (simp add: py_strip_def a)
qed

lemma nat_digits_all_digits: "filter is_py_digit (nat_digits n) = nat_digits n"
  using nat_digits_facts[of n] by (simp add: filter_id_conv)

lemma py_unsigned_nat_digits:
  assumes "length (nat_digits n) \<le> int_max_str_digits"
  shows "py_unsigned (nat_digits n) = Some (int n)"
proof -
  obtain c cs where eq: "nat_digits n = c # cs"
    using nat_digits_facts[of n] by (cases "nat_digits n") auto
  then have c: "is_py_digit c" using nat_digits_facts[of n] by simp
  have v: "py_digits 0 (nat_digits n) = Some (int n)"
    using nat_digits_facts[of n] by simp
  have "\<not> length (filter is_py_digit (nat_digits n)) > int_max_str_digits"
    using assms by (simp add: nat_digits_all_digits)
  then have "py_unsigned (nat_digits n) = py_digits 0 (nat_digits n)"
    using c eq by (simp add: py_unsigned_def)
  then show ?thesis using v by simp
qed

lemma py_int_py_decimal:
  assumes "length (nat_digits (nat \<bar>i\<bar>)) \<le> int_max_str_digits"
  shows "py_int (py_decimal i) = Some i"
proof (cases "i < 0")
  case True
  let ?ds = "nat_digits (nat (- i))"
  have len: "length ?ds \<le> int_max_str_digits" using assms True by simp
  have ne: "?ds \<noteq> []" and sp: "\<not> is_py_space (last ?ds)"
    using nat_digits_facts[of "nat (- i)"] by simp_all
  have "\<not> is_py_space (CHR ''-'')" by (simp add: is_py_space_def)
  then have "py_strip (CHR ''-'' # ?ds) = CHR ''-'' # ?ds"
    using ne sp by (intro py_strip_id) simp_all
  then show ?thesis
    using True by (simp add: py_int_def py_decimal_def py_unsigned_nat_digits[OF len])
next
  case False
  let ?ds = "nat_digits (nat i)"
  have len: "length ?ds \<le> int_max_str_digits" using assms False by simp
  obtain c cs where eq: "?ds = c # cs"
    using nat_digits_facts[of "nat i"] by (cases ?ds) auto
  have c: "c \<noteq> CHR ''-''" "c \<noteq> CHR ''+''"
    using nat_digits_facts[of "nat i"] eq by simp_all
  have "py_strip ?ds = ?ds"
    using nat_digits_facts[of "nat i"] by (intro py_strip_id) simp_all
  then have "py_int ?ds = py_unsigned ?ds"
    using eq c by (simp add: py_int_def)
  then show ?thesis
    using False by (simp add: py_decimal_def py_unsigned_nat_digits[OF len])
qed

lemma py_decimal_not_empty: "py_decimal i \<noteq> []"
  using nat_digits_facts by (simp add: py_decimal_def)

lemma py_int_py_str:
  assumes "py_str i = Some v"
  shows "py_int v = Some i" and "v \<noteq> []"
proof -
  have len: "length (nat_digits (nat \<bar>i\<bar>)) \<le> int_max_str_digits" and v: "v = py_decimal i"
    using assms by (auto simp: py_str_def split: if_splits)
  show "py_int v = Some i" unfolding v by (rule py_int_py_decimal[OF len])
  show "v \<noteq> []" unfolding v by (rule py_decimal_not_empty)
qed

lemma reread_py_str: "py_str i = Some v \<Longrightarrow> reread v j = i"
  by (simp add: reread_def py_int_py_str)

lemma parse_field_py_str: "py_str i = Some v \<Longrightarrow> parse_field v d = Inr i"
  by (simp add: parse_field_def py_int_py_str)

section \<open>The time left and the length of the phase\<close>

lemma phase_bound_iff:
  "phase_bound s =
     ((is_break s \<longrightarrow> (\<exists>m t. break_window s = Some (m, t) \<and> time_left s \<le> m * 60))
      \<and> (\<not> is_break s \<longrightarrow> time_left s \<le> work_minutes s * 60))"
  by (auto simp: phase_bound_def split: option.splits)

lemma init_app_phase_bound:
  "init_app start_minimized tray activity now f = Some s \<Longrightarrow> phase_bound s"
  by (auto simp: init_app_def Let_def start_timer_def phase_bound_iff
           split: Option.bind_splits if_splits)

lemma step_phase_bound:
  assumes "\<not> is_save e" and "phase_bound s"
  shows "phase_bound (step e s)"
proof (cases e)
  case Timer_tick
  then show ?thesis using assms(2)
    by (auto simp: phase_bound_iff run_timer_iteration_def Let_def split: option.splits)
next
  case Timer_complete
  then show ?thesis using assms(2)
    by (auto simp: phase_bound_iff timer_defs Let_def split: option.splits)
next
  case (Input_event t)
  then show ?thesis using assms(2)
    by (auto simp: phase_bound_iff deliver_def on_activity_def on_activity_change_def Let_def
             split: option.splits)
next
  case (Monitor_check t)
  then show ?thesis using assms(2)
    by (auto simp: phase_bound_iff deliver_def monitor_activity_def on_activity_change_def Let_def
             split: option.splits)
next
  case Click_start_stop
  then show ?thesis using assms(2)
    by (auto simp: phase_bound_iff timer_defs split: option.splits)
next
  case Click_reset
  then show ?thesis by (simp add: phase_bound_iff reset_timer_def Let_def)
next
  case Click_skip
  then show ?thesis using assms(2)
    by (auto simp: phase_bound_iff skip_break_def timer_defs Let_def split: option.splits)
next
  case (Click_save t w)
  then show ?thesis using assms(1) by simp
next
  case (Set_activity b t)
  then show ?thesis using assms(2)
    by (auto simp: phase_bound_iff toggle_activity_detection_def split: option.splits)
qed (use assms(2) in \<open>simp_all add: phase_bound_iff\<close>)

lemma run_phase_bound:
  assumes "list_all (\<lambda>e. \<not> is_save e) es" and "phase_bound s"
  shows "phase_bound (run es s)"
  using assms by (induction es arbitrary: s) (simp_all add: step_phase_bound)


lemma unedited_bound_spec:
  assumes ub: "unedited_bound s"
  shows "spec_phase_bound s"
proof (cases "is_break s")
  case False
  then show ?thesis
    using ub by (simp add: unedited_bound_def spec_phase_bound_def phase_of_def)
next
  case True
  then obtain m t where w: "break_window s = Some (m, t)" "time_left s \<le> m * 60"
    "t = Long \<longrightarrow> m = long_break_minutes s" "t = Short \<longrightarrow> m = break_minutes s"
    using ub by (auto simp: unedited_bound_def)
  show ?thesis
    using True w by (cases t) (simp_all add: spec_phase_bound_def phase_of_def)
qed

lemma init_app_unedited_bound:
  "init_app start_minimized tray activity now f = Some s \<Longrightarrow> unedited_bound s"
  by (auto simp: init_app_def Let_def start_timer_def unedited_bound_def form_unedited_def
           split: Option.bind_splits if_splits)

lemma form_unedited_fields:
  assumes "form_unedited s"
  shows "reread (work_var s) j = work_minutes s"
    and "reread (break_var s) j = break_minutes s"
    and "reread (long_break_var s) j = long_break_minutes s"
    and "parse_field (work_var s) d = Inr (work_minutes s)"
    and "parse_field (break_var s) d = Inr (break_minutes s)"
    and "parse_field (long_break_var s) d = Inr (long_break_minutes s)"
    and "parse_field (sessions_var s) d = Inr (sessions_until_long_break s)"
    and "parse_field (timeout_var s) d = Inr (inactivity_timeout s)"
  using assms by (simp_all add: form_unedited_def reread_py_str parse_field_py_str)

lemma save_settings_unedited:
  assumes "form_unedited s"
  shows "work_minutes (fst (save_settings now writable s)) = work_minutes s"
    and "break_minutes (fst (save_settings now writable s)) = break_minutes s"
    and "long_break_minutes (fst (save_settings now writable s)) = long_break_minutes s"
    and "sessions_until_long_break (fst (save_settings now writable s)) = sessions_until_long_break s"
    and "inactivity_timeout (fst (save_settings now writable s)) = inactivity_timeout s"
    and "is_break (fst (save_settings now writable s)) = is_break s"
    and "time_left (fst (save_settings now writable s)) = time_left s"
    and "break_window (fst (save_settings now writable s)) = break_window s"
    and "form_unedited (fst (save_settings now writable s))"
  using assms form_unedited_fields[OF assms]
  by (simp_all add: form_unedited_def save_settings_def Let_def)

lemma step_unedited_bound:
  assumes "\<not> is_numeric_edit e" and "unedited_bound s"
  shows "unedited_bound (step e s)"
proof -
  have f: "form_unedited s" using assms(2) by (simp add: unedited_bound_def)
  note r = form_unedited_fields(1-3)[OF f]
  show ?thesis
  proof (cases e)
  case Timer_tick
  then show ?thesis using assms(2)
    by (auto simp: unedited_bound_def form_unedited_def run_timer_iteration_def Let_def)
next
  case Timer_complete
  then show ?thesis using assms(2)
    by (auto simp: unedited_bound_def form_unedited_def timer_defs Let_def r)
next
  case (Input_event t)
  then show ?thesis using assms(2)
    by (auto simp: unedited_bound_def form_unedited_def deliver_def on_activity_def
                   on_activity_change_def Let_def split: option.splits)
next
  case (Monitor_check t)
  then show ?thesis using assms(2)
    by (auto simp: unedited_bound_def form_unedited_def deliver_def monitor_activity_def
                   on_activity_change_def Let_def split: option.splits)
next
  case Click_start_stop
  then show ?thesis using assms(2)
    by (auto simp: unedited_bound_def form_unedited_def timer_defs)
next
  case Click_reset
  then show ?thesis using assms(2)
    by (auto simp: unedited_bound_def form_unedited_def reset_timer_def Let_def r)
next
  case Click_skip
  then show ?thesis using assms(2)
    by (auto simp: unedited_bound_def form_unedited_def skip_break_def timer_defs Let_def r)
next
  case (Click_save t w)
  show ?thesis
    using assms(2) save_settings_unedited[OF f, of t w] Click_save
    by (simp add: unedited_bound_def)
next
  case (Set_activity b t)
  then show ?thesis using assms(2)
    by (auto simp: unedited_bound_def form_unedited_def toggle_activity_detection_def)
  qed (use assms in \<open>simp_all add: unedited_bound_def form_unedited_def\<close>)
qed

lemma run_unedited_bound:
  assumes "list_all (\<lambda>e. \<not> is_numeric_edit e) es" and "unedited_bound s"
  shows "unedited_bound (run es s)"
  using assms by (induction es arbitrary: s) (simp_all add: step_unedited_bound)

lemma save_settings_keeps_time_left:
  "time_left (fst (save_settings now writable s)) = time_left s"
  by (simp add: save_settings_def Let_def split: sum.splits)

text \<open>
  C7, as the code has it. Take any state reached from start-up. If no numeric field of the
  settings form was edited on the way (saving is allowed, and then changes no number), the
  time left is at most the length the current settings give the current phase:
  \<open>work_minutes * 60\<close>, \<open>break_minutes * 60\<close> or \<open>long_break_minutes * 60\<close>. If fields
  were edited but nothing was saved, the time left is at most \<open>work_minutes * 60\<close> while
  working and at most 60 times the minutes the break window was opened with in a break.
  \<open>save_settings\<close> assigns the settings and never \<open>time_left\<close>.
\<close>

theorem remaining_within_phase_duration:
  assumes "init_app start_minimized tray activity now f = Some s0"
  shows "(list_all (\<lambda>e. \<not> is_numeric_edit e) es \<longrightarrow> spec_phase_bound (run es s0))
       \<and> (list_all (\<lambda>e. \<not> is_save e) es \<longrightarrow> phase_bound (run es s0))"
  using run_unedited_bound[OF _ init_app_unedited_bound[OF assms], of es]
        run_phase_bound[OF _ init_app_phase_bound[OF assms], of es]
        unedited_bound_spec
  by (auto simp: list_all_iff)

theorem remaining_within_phase_duration_witness:
  "init_app False True True 0 Missing = Some default_app
   \<and> list_all (\<lambda>e. \<not> is_numeric_edit e) [Timer_tick, Click_save 1 True, Timer_tick]
   \<and> spec_phase_bound (run [Timer_tick, Click_save 1 True, Timer_tick] default_app)
   \<and> list_all (\<lambda>e. \<not> is_save e) [Edit_work ''1'', Click_reset, Click_start_stop, Timer_tick]
   \<and> phase_bound (run [Edit_work ''1'', Click_reset, Click_start_stop, Timer_tick] default_app)"
  using remaining_within_phase_duration [OF init_app_default,
          of "[Timer_tick, Click_save 1 True, Timer_tick]"]
        remaining_within_phase_duration [OF init_app_default,
          of "[Edit_work ''1'', Click_reset, Click_start_stop, Timer_tick]"]
        init_app_default
  by simp

text \<open>
  The bound of the specification fails when changed settings are saved during a phase: with
  25 minutes of work on the clock, saving a work time of 1 minute leaves 1500 seconds.
\<close>

theorem save_mid_phase_breaks_bound:
  "init_app False True True 0 Missing = Some default_app
   \<and> spec_phase_bound default_app
   \<and> phase_of (run [Edit_work ''1'', Click_save 0 True] default_app) = Working
   \<and> work_minutes (run [Edit_work ''1'', Click_save 0 True] default_app) = 1
   \<and> time_left (run [Edit_work ''1'', Click_save 0 True] default_app) = 1500
   \<and> \<not> spec_phase_bound (run [Edit_work ''1'', Click_save 0 True] default_app)"
proof -
  have s: "run [Edit_work ''1'', Click_save 0 True] default_app
           = default_app\<lparr>work_var := ''1'', work_minutes := 1\<rparr>"
    by (simp add: default_app_def save_settings_def py_int_defs start_monitoring_def Let_def)
  show ?thesis
    unfolding s using init_app_default
    by (simp add: default_app_def spec_phase_bound_def phase_of_def)
qed

section \<open>A save that meets a field it cannot read\<close>

lemma parse_field_rejected: "rejected v \<Longrightarrow> parse_field v d = Inl ValueError"
  by (simp add: rejected_def parse_field_def)

lemma parse_field_accepted: "\<not> rejected v \<Longrightarrow> \<exists>n. parse_field v d = Inr n"
  by (auto simp: rejected_def parse_field_def split: option.splits)

lemma parse_field_cases:
  obtains (bad) "rejected v" "parse_field v d = Inl ValueError"
        | (good) n where "\<not> rejected v" "parse_field v d = Inr n"
  using parse_field_rejected parse_field_accepted by blast

text \<open>
  C8, as the code has it. When a numeric field of the form is not empty and is not a
  number, \<open>save_settings\<close> ends in its \<open>ValueError\<close> handler: the error dialog is shown,
  nothing is raised and nothing is written. Everything but the four numbers
  \<open>work_minutes\<close>, \<open>break_minutes\<close>, \<open>long_break_minutes\<close> and
  \<open>sessions_until_long_break\<close> is as before: the timer state, the flags, the inactivity
  timeout and the monitor. A rejected field keeps its setting, and so does every number
  assigned after it; a number assigned before the first rejected field has already taken
  the value of its field (the built-in default when that field is empty). When the work
  field is the rejected one the whole state is unchanged.
\<close>

theorem save_settings_rejected_field:
  assumes "rejected (work_var s) \<or> rejected (break_var s) \<or> rejected (long_break_var s)
           \<or> rejected (sessions_var s) \<or> rejected (timeout_var s)"
  shows "snd (save_settings now writable s) = Error_shown
     \<and> (rejected (work_var s) \<longrightarrow> fst (save_settings now writable s) = s)
     \<and> (parse_field (work_var s) 25 = Inr w \<and> rejected (break_var s)
          \<longrightarrow> fst (save_settings now writable s) = s\<lparr>work_minutes := w\<rparr>)
     \<and> (parse_field (work_var s) 25 = Inr w \<and> parse_field (break_var s) 5 = Inr b
          \<and> rejected (long_break_var s)
          \<longrightarrow> fst (save_settings now writable s) = s\<lparr>work_minutes := w, break_minutes := b\<rparr>)
     \<and> (parse_field (work_var s) 25 = Inr w \<and> parse_field (break_var s) 5 = Inr b
          \<and> parse_field (long_break_var s) 15 = Inr l \<and> rejected (sessions_var s)
          \<longrightarrow> fst (save_settings now writable s)
              = s\<lparr>work_minutes := w, break_minutes := b, long_break_minutes := l\<rparr>)
     \<and> (parse_field (work_var s) 25 = Inr w \<and> parse_field (break_var s) 5 = Inr b
          \<and> parse_field (long_break_var s) 15 = Inr l \<and> parse_field (sessions_var s) 4 = Inr k
          \<and> rejected (timeout_var s)
          \<longrightarrow> fst (save_settings now writable s)
              = s\<lparr>work_minutes := w, break_minutes := b, long_break_minutes := l,
                  sessions_until_long_break := k\<rparr>)
     \<and> (\<not> rejected (work_var s) \<longrightarrow> (\<exists>n. parse_field (work_var s) 25 = Inr n))
     \<and> (\<not> rejected (break_var s) \<longrightarrow> (\<exists>n. parse_field (break_var s) 5 = Inr n))
     \<and> (\<not> rejected (long_break_var s) \<longrightarrow> (\<exists>n. parse_field (long_break_var s) 15 = Inr n))
     \<and> (\<not> rejected (sessions_var s) \<longrightarrow> (\<exists>n. parse_field (sessions_var s) 4 = Inr n))
     \<and> (fst (save_settings now writable s))
          \<lparr>work_minutes := work_minutes s, break_minutes := break_minutes s,
           long_break_minutes := long_break_minutes s,
           sessions_until_long_break := sessions_until_long_break s\<rparr> = s"
proof -
  have ex: "\<not> rejected (work_var s) \<longrightarrow> (\<exists>n. parse_field (work_var s) 25 = Inr n)"
    "\<not> rejected (break_var s) \<longrightarrow> (\<exists>n. parse_field (break_var s) 5 = Inr n)"
    "\<not> rejected (long_break_var s) \<longrightarrow> (\<exists>n. parse_field (long_break_var s) 15 = Inr n)"
    "\<not> rejected (sessions_var s) \<longrightarrow> (\<exists>n. parse_field (sessions_var s) 4 = Inr n)"
    using parse_field_accepted by blast+
  show ?thesis
  proof (cases "work_var s" "25::int" rule: parse_field_cases)
  case bad
  then show ?thesis using ex by (simp add: save_settings_def)
next
  case w: (good wm)
  show ?thesis
  proof (cases "break_var s" "5::int" rule: parse_field_cases)
    case bad
    then show ?thesis using w ex by (simp add: save_settings_def Let_def)
  next
    case b: (good bm)
    show ?thesis
    proof (cases "long_break_var s" "15::int" rule: parse_field_cases)
      case bad
      then show ?thesis using w b ex by (simp add: save_settings_def Let_def)
    next
      case l: (good lm)
      show ?thesis
      proof (cases "sessions_var s" "4::int" rule: parse_field_cases)
        case bad
        then show ?thesis using w b l ex by (simp add: save_settings_def Let_def)
      next
        case k: (good kk)
        show ?thesis
        proof (cases "timeout_var s" "60::int" rule: parse_field_cases)
          case bad
          then show ?thesis using w b l k ex by (simp add: save_settings_def Let_def)
        next
          case (good tm)
          then show ?thesis using assms w b l k by simp
        qed
      qed
    qed
  qed
  qed
qed


lemma edited_app_eq: "edited_app = default_app\<lparr>work_var := ''30'', break_var := ''abc''\<rparr>"
  by (simp add: edited_app_def)

lemma edited_app_facts:
  "rejected (break_var edited_app)" "\<not> rejected (work_var edited_app)"
  "work_var edited_app = ''30''" "is_running edited_app" "time_left edited_app = 1500"
  "break_minutes edited_app = 5" "work_minutes edited_app = 25"
  by (simp_all add: edited_app_eq rejected_def py_int_defs default_app_def)

lemma edited_app_save:
  "save_settings 0 True edited_app = (edited_app\<lparr>work_minutes := 30\<rparr>, Error_shown)"
  by (simp add: edited_app_eq save_settings_def py_int_defs Let_def)

theorem save_settings_rejected_field_witness:
  "rejected (break_var edited_app)
   \<and> parse_field (work_var edited_app) 25 = Inr 30
   \<and> snd (save_settings 0 True edited_app) = Error_shown
   \<and> fst (save_settings 0 True edited_app) = edited_app\<lparr>work_minutes := 30\<rparr>
   \<and> break_minutes (fst (save_settings 0 True edited_app)) = 5
   \<and> long_break_minutes (fst (save_settings 0 True edited_app)) = 15
   \<and> sessions_until_long_break (fst (save_settings 0 True edited_app)) = 4
   \<and> is_running (fst (save_settings 0 True edited_app))
   \<and> time_left (fst (save_settings 0 True edited_app)) = 1500"
proof -
  have hyp: "rejected (work_var edited_app) \<or> rejected (break_var edited_app)
     \<or> rejected (long_break_var edited_app) \<or> rejected (sessions_var edited_app)
     \<or> rejected (timeout_var edited_app)"
    using edited_app_facts(1) by simp
  have p: "parse_field (work_var edited_app) 25 = Inr 30"
    by (simp add: edited_app_eq py_int_defs)
  note th = save_settings_rejected_field
              [where s = edited_app and now = 0 and writable = True and w = 30
                 and b = 0 and l = 0 and k = 0, OF hyp]
  have out: "snd (save_settings 0 True edited_app) = Error_shown"
    using th by (rule conjunct1)
  have "parse_field (work_var edited_app) 25 = Inr 30 \<and> rejected (break_var edited_app)
        \<longrightarrow> fst (save_settings 0 True edited_app) = edited_app\<lparr>work_minutes := 30\<rparr>"
    using th by (rule conjunct2 [THEN conjunct2, THEN conjunct1])
  then have eq: "fst (save_settings 0 True edited_app) = edited_app\<lparr>work_minutes := 30\<rparr>"
    using p edited_app_facts(1) by (rule mp [OF _ conjI])
  have rest: "break_minutes (edited_app\<lparr>work_minutes := 30\<rparr>) = 5"
    "long_break_minutes (edited_app\<lparr>work_minutes := 30\<rparr>) = 15"
    "sessions_until_long_break (edited_app\<lparr>work_minutes := 30\<rparr>) = 4"
    "is_running (edited_app\<lparr>work_minutes := 30\<rparr>)"
    "time_left (edited_app\<lparr>work_minutes := 30\<rparr>) = 1500"
    by (simp_all add: edited_app_eq default_app_def)
  show ?thesis
    unfolding eq using edited_app_facts(1) p out rest by simp
qed

text \<open>
  A failed save does change a setting: with 30 in the work field and abc in the break
  field, the error dialog is shown and \<open>work_minutes\<close> has gone from 25 to 30.
\<close>

theorem failed_save_keeps_earlier_edit:
  "work_minutes edited_app = 25
   \<and> rejected (break_var edited_app)
   \<and> snd (save_settings 0 True edited_app) = Error_shown
   \<and> work_minutes (fst (save_settings 0 True edited_app)) = 30
   \<and> fst (save_settings 0 True edited_app) \<noteq> edited_app"
proof -
  have d: "work_minutes (fst (save_settings 0 True edited_app)) = 30"
    unfolding edited_app_save by simp
  have "fst (save_settings 0 True edited_app) \<noteq> edited_app"
  proof
    assume "fst (save_settings 0 True edited_app) = edited_app"
    then have "work_minutes (fst (save_settings 0 True edited_app)) = work_minutes edited_app"
      by simp
    then show False using d edited_app_facts(7) by simp
  qed
  then show ?thesis using d edited_app_facts(1,7) by (simp add: edited_app_save)
qed

section \<open>Ticks while the user is away\<close>

lemma away_app_reached:
  "map_option (run away_trace) (init_app False True True 0 quick_config) = Some away_app"
  by code_simp

text \<open>
  C1. What \<open>run_timer\<close> does on a tick with \<open>should_pause\<close> true while \<open>is_paused\<close> is
  false: it takes the first branch of its \<open>if\<close>, counts the second down and leaves
  \<open>is_paused\<close> and \<open>pause_reason\<close> alone. The assignment \<open>is_paused = True\<close> of the other
  branch is never reached, since that branch is entered only when \<open>is_paused\<close> holds
  already. The state \<open>away_app\<close> is reached from start-up, and there the work session counts
  down from 60 to 59 with the user away.
\<close>

theorem unpaused_tick_ignores_inactivity:
  assumes "should_pause s" and "\<not> is_paused s" and "is_running s" and "0 < time_left s"
  shows "time_left (step Timer_tick s) = time_left s - 1
     \<and> \<not> is_paused (step Timer_tick s)
     \<and> pause_reason (step Timer_tick s) = pause_reason s"
  using assms by (simp add: run_timer_iteration_def Let_def)

theorem unpaused_tick_ignores_inactivity_witness:
  "map_option (run away_trace) (init_app False True True 0 quick_config) = Some away_app
   \<and> should_pause away_app \<and> \<not> is_paused away_app \<and> is_running away_app
   \<and> 0 < time_left away_app
   \<and> time_left away_app = 60
   \<and> time_left (step Timer_tick away_app) = 59
   \<and> \<not> is_paused (step Timer_tick away_app)"
proof -
  have h: "should_pause away_app" "\<not> is_paused away_app" "is_running away_app"
    "0 < time_left away_app" "time_left away_app = 60"
    by (simp_all add: away_app_def should_pause_def)
  show ?thesis
    using unpaused_tick_ignores_inactivity [OF h(1-4)] h away_app_reached by simp
qed

text \<open>
  Once \<open>is_paused\<close> is set, ticks with \<open>should_pause\<close> true change nothing: the time left and
  the pause stay as they are for any number of ticks.
\<close>

theorem paused_ticks_change_nothing:
  assumes "should_pause s" and "is_paused s"
  shows "run (replicate n Timer_tick) s = s"
proof (induction n)
  case 0
  then show ?case by simp
next
  case (Suc n)
  have "step Timer_tick s = s"
    using assms by (simp add: run_timer_iteration_def)
  then show ?case using Suc by simp
qed

theorem paused_ticks_change_nothing_witness:
  "should_pause (step (Monitor_check 100) default_app)
   \<and> is_paused (step (Monitor_check 100) default_app)
   \<and> time_left (run (replicate 7 Timer_tick) (step (Monitor_check 100) default_app)) = 1500
   \<and> is_paused (run (replicate 7 Timer_tick) (step (Monitor_check 100) default_app))"
proof -
  have h: "should_pause (step (Monitor_check 100) default_app)"
    "is_paused (step (Monitor_check 100) default_app)"
    "time_left (step (Monitor_check 100) default_app) = 1500"
    by (simp_all add: default_app_def should_pause_def deliver_def monitor_activity_def
        on_activity_change_def Let_def)
  show ?thesis
    using paused_ticks_change_nothing [OF h(1,2), of 7] h by simp
qed

end
